theory Spec2Isabelle
  imports Complex_Main "HOL-Library.AList"
begin

section \<open>The vanity address service (services/vanityService.js)\<close>

text \<open>
  The service is the class \<open>VanityService\<close>: a table of active jobs keyed by the
  requesting user, a pattern validator with a difficulty estimate, and the handlers the
  service registers on each worker thread and on each job's timer.

  Conventions of the embedding.
  \<^item> A JavaScript string is a \<open>string\<close>; one \<open>char\<close> stands for one UTF-16 code
    unit, so \<open>length\<close> is the source's \<open>.length\<close>.
  \<^item> A JavaScript number is an IEEE double. The model computes with exact reals and
    adds the one non-finite value these computations reach from finite arguments without
    overflow, \<open>Infinity\<close> (from \<open>58^0 / 0\<close>). The powers of 58 for patterns of
    valid length are integers below \<open>2^53\<close>, exact as doubles; for long patterns the
    doubles round and, from \<open>58^175\<close> on, overflow, which the model does not follow.
  \<^item> Calls on the collaborators (the Telegram bot, the worker threads, the timers) are
    appended to a trace kept in the state.
  \<^item> \<open>Date.now()\<close> and \<open>crypto.randomBytes\<close> are inputs of the operation that reads
    them.
\<close>

subsection \<open>Numbers\<close>

datatype jsnum = Num real | PosInf

text \<open>\<open>x / y\<close> for a positive \<open>x\<close>: division by zero gives \<open>Infinity\<close>.\<close>

definition js_div :: "real \<Rightarrow> real \<Rightarrow> jsnum" where
  "js_div x y = (if y = 0 then PosInf else Num (x / y))"

text \<open>Multiplication and division by a positive finite constant.\<close>

fun js_times :: "jsnum \<Rightarrow> real \<Rightarrow> jsnum" where
  "js_times (Num x) c = Num (x * c)"
| "js_times PosInf c = PosInf"

fun js_over :: "jsnum \<Rightarrow> real \<Rightarrow> jsnum" where
  "js_over (Num x) c = Num (x / c)"
| "js_over PosInf c = PosInf"

text \<open>\<open>Math.round\<close>: the nearest integer, a tie going up.\<close>

fun js_round :: "jsnum \<Rightarrow> jsnum" where
  "js_round (Num x) = Num (of_int \<lfloor>x + 1 / 2\<rfloor>)"
| "js_round PosInf = PosInf"

text \<open>\<open>a < c\<close> and \<open>a <= b\<close>.\<close>

fun js_less :: "jsnum \<Rightarrow> real \<Rightarrow> bool" where
  "js_less (Num x) c = (x < c)"
| "js_less PosInf c = False"

fun js_le :: "jsnum \<Rightarrow> jsnum \<Rightarrow> bool" where
  "js_le (Num x) (Num y) = (x \<le> y)"
| "js_le (Num x) PosInf = True"
| "js_le PosInf (Num y) = False"
| "js_le PosInf PosInf = True"

fun js_lt :: "jsnum \<Rightarrow> jsnum \<Rightarrow> bool" where
  "js_lt (Num x) (Num y) = (x < y)"
| "js_lt (Num x) PosInf = True"
| "js_lt PosInf (Num y) = False"
| "js_lt PosInf PosInf = False"

subsection \<open>Numbers in template strings\<close>

definition digit_char :: "nat \<Rightarrow> char" where
  "digit_char d = ''0123456789'' ! d"

fun show_nat :: "nat \<Rightarrow> string" where
  "show_nat n = (if n < 10 then [digit_char n] else show_nat (n div 10) @ [digit_char (n mod 10)])"

definition show_int :: "int \<Rightarrow> string" where
  "show_int i = (if i < 0 then CHR ''-'' # show_nat (nat (- i)) else show_nat (nat i))"

text \<open>
  The text of an integral number in a template string. (From \<open>10^21\<close> on JavaScript
  switches to exponent notation; the model prints all digits.)
\<close>

fun show_num :: "jsnum \<Rightarrow> string" where
  "show_num (Num x) = show_int \<lfloor>x\<rfloor>"
| "show_num PosInf = ''Infinity''"

subsection \<open>Difficulty estimate\<close>

datatype warning_level = Easy | Medium | Hard | Extreme

record difficulty_info =
  difficulty :: jsnum
  estimatedAttempts :: jsnum
  estimatedTime :: string
  warningLevel :: warning_level

definition base58Chars :: real where
  "base58Chars = 58"

text \<open>The \<open>switch\<close> on the match type; any other type string takes the default branch.\<close>

definition baseDifficulty :: "string \<Rightarrow> string \<Rightarrow> jsnum" where
  "baseDifficulty pattern type =
     (if type = ''prefix'' \<or> type = ''suffix'' then Num (base58Chars ^ length pattern)
      else if type = ''contains''
        then js_div (base58Chars ^ length pattern) (of_nat (length pattern))
      else Num (base58Chars ^ length pattern))"

definition estimatedAttemptsOf :: "string \<Rightarrow> string \<Rightarrow> jsnum" where
  "estimatedAttemptsOf pattern type = js_round (js_times (baseDifficulty pattern type) (693 / 1000))"

definition estimatedSeconds :: "string \<Rightarrow> string \<Rightarrow> jsnum" where
  "estimatedSeconds pattern type = js_over (estimatedAttemptsOf pattern type) 1000"

definition getDifficultyWarning :: "jsnum \<Rightarrow> warning_level" where
  "getDifficultyWarning secs =
     (if js_less secs 60 then Easy
      else if js_less secs 300 then Medium
      else if js_less secs 1800 then Hard
      else Extreme)"

definition formatTime :: "jsnum \<Rightarrow> string" where
  "formatTime seconds =
     (if js_less seconds 60 then show_num (js_round seconds) @ ''s''
      else if js_less seconds 3600 then show_num (js_round (js_over seconds 60)) @ ''m''
      else if js_less seconds 86400 then show_num (js_round (js_over seconds 3600)) @ ''h''
      else show_num (js_round (js_over seconds 86400)) @ ''d'')"

definition calculateDifficulty :: "string \<Rightarrow> string \<Rightarrow> difficulty_info" where
  "calculateDifficulty pattern type =
     \<lparr> difficulty = baseDifficulty pattern type,
       estimatedAttempts = estimatedAttemptsOf pattern type,
       estimatedTime = formatTime (estimatedSeconds pattern type),
       warningLevel = getDifficultyWarning (estimatedSeconds pattern type) \<rparr>"

subsection \<open>Pattern validation\<close>

definition maxPatternLength :: nat where
  "maxPatternLength = 6"

definition base58Alphabet :: string where
  "base58Alphabet = ''123456789ABCDEFGHJKLMNPQRSTUVWXYZabcdefghijkmnopqrstuvwxyz''"

text \<open>The regular expression \<open>^[...]+$\<close>: one or more characters, all of the alphabet.\<close>

definition validBase58 :: "string \<Rightarrow> bool" where
  "validBase58 pattern = (pattern \<noteq> [] \<and> list_all (\<lambda>c. c \<in> set base58Alphabet) pattern)"

datatype validation_error =
    PatternEmpty
  | PatternTooLong nat
  | InvalidCharacters
  | ExtremelyDifficult string

record validation =
  valid :: bool
  errors :: "validation_error list"
  v_difficulty :: "difficulty_info option"

definition validatePattern :: "string \<Rightarrow> string \<Rightarrow> validation" where
  "validatePattern pattern type =
     (if pattern = [] then \<lparr> valid = False, errors = [PatternEmpty], v_difficulty = None \<rparr>
      else
        let errors1 = (if length pattern > maxPatternLength
                       then [PatternTooLong maxPatternLength] else []);
            errors2 = errors1 @ (if \<not> validBase58 pattern then [InvalidCharacters] else []);
            d = calculateDifficulty pattern type;
            errors3 = errors2 @ (if warningLevel d = Extreme
                                 then [ExtremelyDifficult (estimatedTime d)] else [])
        in \<lparr> valid = (errors3 = []), errors = errors3, v_difficulty = Some d \<rparr>)"

subsection \<open>Jobs, worker messages and the collaborators\<close>

type_synonym user_id = int

text \<open>
  The entry of \<open>activeJobs\<close>. The worker thread and the timer of a job are named by the
  job's id: the fields \<open>worker\<close> and \<open>timeout\<close> of the source are both set before the
  job enters the table, so the two truth tests in \<open>cleanupJob\<close> always succeed.
\<close>

record jobInfo =
  jobId :: string
  userId :: user_id
  pattern :: string
  type :: string
  startTime :: int
  lastProgress :: int
  job_difficulty :: difficulty_info

record worker_result =
  address :: string
  publicKey :: string
  privateKey :: "nat list"
  mnemonic :: string
  attempts :: int

text \<open>What a worker posts; \<open>OtherMessage\<close> is a message whose type is none of the three.\<close>

datatype worker_message =
    Progress int
  | Success worker_result
  | ErrorMessage string
  | OtherMessage

text \<open>
  The texts sent through the bot, each with the values its template interpolates: progress
  (pattern, type, attempts, formatted elapsed time; the speed shown is derived from the
  attempts and the elapsed time), success (address, pattern, type, attempts, formatted
  time), failure (the error's message) and cancellation (the reason).
\<close>

datatype notification =
    ProgressText string string int string
  | SuccessText string string string int string
  | FailedText string
  | CancelledText string

datatype effect =
    SendMessage user_id notification
  | SpawnWorker string string string
  | Terminate string
  | SetTimeout string int
  | ClearTimeout string

record service =
  activeJobs :: "(user_id \<times> jobInfo) list"
  trace :: "effect list"

text \<open>The constructor.\<close>

definition initial :: service where
  "initial = \<lparr> activeJobs = [], trace = [] \<rparr>"

definition maxConcurrentJobs :: nat where
  "maxConcurrentJobs = 3"

definition maxGenerationTime :: int where
  "maxGenerationTime = 30 * 60 * 1000"

text \<open>
  \<open>activeJobs\<close> is a JavaScript \<open>Map\<close>, which keeps its entries in insertion order:
  \<open>get\<close> is \<open>map_of\<close>, \<open>set\<close> is \<open>AList.update\<close> (in place for a present key, at
  the end for a new one), \<open>delete\<close> is \<open>AList.delete\<close>, \<open>size\<close> is \<open>length\<close>.
\<close>

definition emit :: "effect list \<Rightarrow> service \<Rightarrow> service" where
  "emit es s = s\<lparr> trace := trace s @ es \<rparr>"

subsection \<open>The operations\<close>

definition cleanupJob :: "user_id \<Rightarrow> service \<Rightarrow> service" where
  "cleanupJob u s =
     (case map_of (activeJobs s) u of
        None \<Rightarrow> s
      | Some job \<Rightarrow>
          (emit [ClearTimeout (jobId job), Terminate (jobId job)] s)
            \<lparr> activeJobs := AList.delete u (activeJobs s) \<rparr>)"

datatype start_error =
    AlreadyActive
  | ConcurrencyLimitReached
  | InvalidPattern "validation_error list"
  | TypeError

record start_result =
  r_jobId :: string
  r_difficulty :: difficulty_info
  startMessage :: "string \<times> string \<times> difficulty_info"

text \<open>
  \<open>startGeneration\<close>; \<open>jid\<close> is the hex string of the eight random bytes and \<open>now\<close>
  the clock. The three \<open>throw\<close>s come before any assignment, so a failed start returns
  the error alone and the service is as it was. (\<open>TypeError\<close> is what
  \<open>getStartMessage\<close> would raise on a validation without difficulty; a valid pattern
  always has one.)
\<close>

definition startGeneration ::
  "user_id \<Rightarrow> string \<Rightarrow> string \<Rightarrow> string \<Rightarrow> int \<Rightarrow> service \<Rightarrow> start_error + (start_result \<times> service)" where
  "startGeneration u pat ty jid now s =
     (if map_of (activeJobs s) u \<noteq> None then Inl AlreadyActive
      else if length (activeJobs s) \<ge> maxConcurrentJobs then Inl ConcurrencyLimitReached
      else
        let validation = validatePattern pat ty in
        if \<not> valid validation then Inl (InvalidPattern (errors validation))
        else
          case v_difficulty validation of
            None \<Rightarrow> Inl TypeError
          | Some d \<Rightarrow>
              let job = \<lparr> jobId = jid, userId = u, pattern = pat, type = ty,
                          startTime = now, lastProgress = 0, job_difficulty = d \<rparr>;
                  s1 = emit [SpawnWorker jid pat ty, SetTimeout jid maxGenerationTime] s;
                  s2 = s1\<lparr> activeJobs := AList.update u job (activeJobs s1) \<rparr>
              in Inr (\<lparr> r_jobId = jid, r_difficulty = d, startMessage = (pat, ty, d) \<rparr>, s2))"

definition elapsedText :: "int \<Rightarrow> jobInfo \<Rightarrow> string" where
  "elapsedText now job = formatTime (Num (of_int (now - startTime job) / 1000))"

definition handleProgress :: "user_id \<Rightarrow> int \<Rightarrow> int \<Rightarrow> service \<Rightarrow> service" where
  "handleProgress u n now s =
     (case map_of (activeJobs s) u of
        None \<Rightarrow> s
      | Some job \<Rightarrow>
          if n - lastProgress job \<ge> 10000 then
            (emit [SendMessage u (ProgressText (pattern job) (type job) n (elapsedText now job))] s)
              \<lparr> activeJobs := AList.update u (job\<lparr> lastProgress := n \<rparr>) (activeJobs s) \<rparr>
          else s)"

record wallet_result =
  w_address :: string
  w_publicKey :: string
  w_privateKey :: "nat list"
  w_mnemonic :: string
  isVanity :: bool
  vanityPattern :: string
  vanityType :: string
  w_attempts :: int
  generationTime :: int

text \<open>\<open>handleSuccess\<close> returns the record "for saving to database", or nothing without a job.\<close>

definition handleSuccess ::
  "user_id \<Rightarrow> worker_result \<Rightarrow> int \<Rightarrow> service \<Rightarrow> wallet_result option \<times> service" where
  "handleSuccess u result now s =
     (case map_of (activeJobs s) u of
        None \<Rightarrow> (None, s)
      | Some job \<Rightarrow>
          let s1 = emit [SendMessage u (SuccessText (address result) (pattern job) (type job)
                           (attempts result) (elapsedText now job))] s;
              s2 = cleanupJob u s1
          in (Some \<lparr> w_address = address result, w_publicKey = publicKey result,
                      w_privateKey = privateKey result, w_mnemonic = mnemonic result,
                      isVanity = True, vanityPattern = pattern job, vanityType = type job,
                      w_attempts = attempts result,
                      generationTime = now - startTime job \<rparr>, s2))"

text \<open>\<open>handleWorkerError\<close> sends the failure text whether or not the user has a job.\<close>

definition handleWorkerError :: "user_id \<Rightarrow> string \<Rightarrow> service \<Rightarrow> service" where
  "handleWorkerError u msg s = cleanupJob u (emit [SendMessage u (FailedText msg)] s)"

text \<open>
  \<open>handleWorkerMessage\<close> is the listener of the worker's \<open>message\<close> event. Its
  \<open>switch\<close> calls \<open>handleSuccess\<close> as a statement: the record that returns is dropped.
\<close>

definition handleWorkerMessage :: "user_id \<Rightarrow> worker_message \<Rightarrow> int \<Rightarrow> service \<Rightarrow> service" where
  "handleWorkerMessage u m now s =
     (case map_of (activeJobs s) u of
        None \<Rightarrow> s
      | Some job \<Rightarrow>
          (case m of
             Progress n \<Rightarrow> handleProgress u n now s
           | Success result \<Rightarrow> snd (handleSuccess u result now s)
           | ErrorMessage e \<Rightarrow> handleWorkerError u e s
           | OtherMessage \<Rightarrow> s))"

text \<open>\<open>cancelGeneration\<close>; a missing reason takes the parameter's default.\<close>

definition cancelGeneration :: "user_id \<Rightarrow> string option \<Rightarrow> service \<Rightarrow> bool \<times> service" where
  "cancelGeneration u reason s =
     (case map_of (activeJobs s) u of
        None \<Rightarrow> (False, s)
      | Some job \<Rightarrow>
          let r = (case reason of None \<Rightarrow> ''Cancelled by user'' | Some x \<Rightarrow> x);
              s1 = emit [Terminate (jobId job), SendMessage u (CancelledText r)] s
          in (True, cleanupJob u s1))"

record status_view =
  s_pattern :: string
  s_type :: string
  s_elapsed :: string
  s_difficulty :: difficulty_info

text \<open>\<open>getStatus\<close> reads the table and the clock; it returns the service with the view.\<close>

definition getStatus :: "user_id \<Rightarrow> int \<Rightarrow> service \<Rightarrow> status_view option \<times> service" where
  "getStatus u now s =
     (case map_of (activeJobs s) u of
        None \<Rightarrow> (None, s)
      | Some job \<Rightarrow>
          (Some \<lparr> s_pattern = pattern job, s_type = type job,
                   s_elapsed = elapsedText now job,
                   s_difficulty = job_difficulty job \<rparr>, s))"

subsection \<open>The listeners registered by a start\<close>

text \<open>
  A start registers four callbacks, each closed over the user's id: the worker's
  \<open>message\<close>, \<open>error\<close> and \<open>exit\<close> listeners and the timer's callback. Together with
  the calls of the request layer they are the events the service handles, one at a time.
\<close>

definition onExit :: "user_id \<Rightarrow> int \<Rightarrow> service \<Rightarrow> service" where
  "onExit u code s =
     (if code \<noteq> 0 then handleWorkerError u (''Worker stopped with exit code '' @ show_int code) s
      else s)"

definition onTimeout :: "user_id \<Rightarrow> service \<Rightarrow> service" where
  "onTimeout u s = snd (cancelGeneration u (Some ''Generation timed out after 30 minutes'') s)"

datatype event =
    Start user_id string string string int
  | Cancel user_id "string option"
  | Status user_id int
  | WorkerMessage user_id worker_message int
  | WorkerError user_id string
  | WorkerExit user_id int
  | TimeoutFired user_id

fun handle :: "event \<Rightarrow> service \<Rightarrow> service" where
  "handle (Start u pat ty jid now) s =
     (case startGeneration u pat ty jid now s of Inl e \<Rightarrow> s | Inr (r, s') \<Rightarrow> s')"
| "handle (Cancel u reason) s = snd (cancelGeneration u reason s)"
| "handle (Status u now) s = snd (getStatus u now s)"
| "handle (WorkerMessage u m now) s = handleWorkerMessage u m now s"
| "handle (WorkerError u msg) s = handleWorkerError u msg s"
| "handle (WorkerExit u code) s = onExit u code s"
| "handle (TimeoutFired u) s = onTimeout u s"

fun run :: "event list \<Rightarrow> service \<Rightarrow> service" where
  "run [] s = s"
| "run (e # es) s = run es (handle e s)"

subsection \<open>Observations on a service\<close>

text \<open>The entries of the table that belong to a user: under the user's key or by their \<open>userId\<close>.\<close>

definition jobsOf :: "user_id \<Rightarrow> service \<Rightarrow> (user_id \<times> jobInfo) list" where
  "jobsOf r s = filter (\<lambda>(k, job). k = r \<or> userId job = r) (activeJobs s)"

text \<open>
  What holds of every table the service builds: no key twice, every job under its own
  user's key, never more jobs than \<open>maxConcurrentJobs\<close>.
\<close>

definition table_ok :: "service \<Rightarrow> bool" where
  "table_ok s =
     (distinct (map fst (activeJobs s)) \<and>
      list_all (\<lambda>(k, job). userId job = k) (activeJobs s) \<and>
      length (activeJobs s) \<le> maxConcurrentJobs)"

text \<open>The texts the bot has sent to a user, oldest first.\<close>

fun sentTo :: "user_id \<Rightarrow> effect list \<Rightarrow> notification list" where
  "sentTo u [] = []"
| "sentTo u (SendMessage v n # es) = (if v = u then n # sentTo u es else sentTo u es)"
| "sentTo u (e # es) = sentTo u es"

text \<open>
  The terminal states of a job as the specification names them, and the one each text
  of the service announces: the headings are "Generated Successfully", "Generation
  Failed" and "Generation Cancelled"; a progress text announces none.
\<close>

datatype terminal_state = Succeeded | Failed | Exhausted | Cancelled | TimedOut

fun announces :: "notification \<Rightarrow> terminal_state option" where
  "announces (ProgressText p t n e) = None"
| "announces (SuccessText a p t n e) = Some Succeeded"
| "announces (FailedText m) = Some Failed"
| "announces (CancelledText r) = Some Cancelled"

text \<open>The events that end the job of user \<open>v\<close>, if \<open>v\<close> has one.\<close>

fun ends_job :: "user_id \<Rightarrow> event \<Rightarrow> bool" where
  "ends_job v (Cancel u reason) = (u = v)"
| "ends_job v (TimeoutFired u) = (u = v)"
| "ends_job v (WorkerMessage u (Success result) now) = (u = v)"
| "ends_job v (WorkerMessage u (ErrorMessage e) now) = (u = v)"
| "ends_job v (WorkerError u msg) = (u = v)"
| "ends_job v (WorkerExit u code) = (u = v \<and> code \<noteq> 0)"
| "ends_job v e = False"

text \<open>A pattern of valid length and alphabet.\<close>

definition wellFormed :: "string \<Rightarrow> bool" where
  "wellFormed pat = (length pat \<le> maxPatternLength \<and> validBase58 pat)"

text \<open>A result as a worker posts it, for the examples.\<close>

definition exampleResult :: worker_result where
  "exampleResult =
     \<lparr> address = ''abcXYZ'', publicKey = ''abcXYZ'', privateKey = [1, 2, 3],
       mnemonic = ''word word'', attempts = 4321 \<rparr>"

text \<open>Two services for the examples: one job running, and three.\<close>

definition oneJob :: service where
  "oneJob = run [Start 1 ''abc'' ''prefix'' ''j1'' 0] initial"

definition threeJobs :: service where
  "threeJobs = run [Start 1 ''abc'' ''prefix'' ''j1'' 0, Start 2 ''xy'' ''suffix'' ''j2'' 10,
                    Start 3 ''Zz9'' ''contains'' ''j3'' 20] initial"

section \<open>Properties\<close>

subsection \<open>Association lists as the job table\<close>

lemma length_update_alist:
  "length (AList.update k v al) = (if map_of al k = None then Suc (length al) else length al)"
  by (induction al) auto

lemma list_all_update_alist:
  "list_all P al \<Longrightarrow> P (k, v) \<Longrightarrow> list_all P (AList.update k v al)"
  by (induction al) auto

lemma list_all_delete_alist: "list_all P al \<Longrightarrow> list_all P (AList.delete k al)"
  by (induction al) auto

lemma length_delete_present:
  "distinct (map fst al) \<Longrightarrow> map_of al k = Some v \<Longrightarrow> Suc (length (AList.delete k al)) = length al"
proof (induction al)
  case Nil
  then show ?case by simp
next
  case (Cons p al)
  show ?case
  proof (cases "fst p = k")
    case True
    with Cons.prems have "k \<notin> fst ` set al" by auto
    with True show ?thesis by (cases p) simp
  next
    case False
    with Cons show ?thesis by (cases p) auto
  qed
qed

lemma map_of_job_userId:
  "list_all (\<lambda>(k, job). userId job = k) al \<Longrightarrow> map_of al u = Some job \<Longrightarrow> userId job = u"
  by (induction al) (auto split: if_splits)

lemma filter_key_le_one:
  "distinct (map fst al) \<Longrightarrow> length (filter (\<lambda>p. fst p = r) al) \<le> Suc 0"
proof (induction al)
  case Nil
  then show ?case by simp
next
  case (Cons p al)
  show ?case
  proof (cases "fst p = r")
    case True
    with Cons.prems have "r \<notin> fst ` set al" by auto
    then have "filter (\<lambda>p. fst p = r) al = []" by (auto simp: filter_empty_conv)
    with True show ?thesis by simp
  next
    case False
    with Cons show ?thesis by simp
  qed
qed

subsection \<open>The table invariant\<close>

lemma jobsOf_le_one:
  assumes "table_ok s"
  shows "length (jobsOf r s) \<le> 1"
proof -
  from assms have own: "list_all (\<lambda>(k, job). userId job = k) (activeJobs s)"
    and dist: "distinct (map fst (activeJobs s))" by (simp_all add: table_ok_def)
  from own have "filter (\<lambda>(k, job). k = r \<or> userId job = r) (activeJobs s)
      = filter (\<lambda>p. fst p = r) (activeJobs s)"
    by (intro filter_cong) (auto simp: list_all_iff)
  with filter_key_le_one [OF dist, of r] show ?thesis by (simp add: jobsOf_def)
qed

lemma table_ok_initial: "table_ok initial"
  by (simp add: table_ok_def initial_def)

lemma activeJobs_emit [simp]: "activeJobs (emit es s) = activeJobs s"
  by (simp add: emit_def)

lemma trace_emit [simp]: "trace (emit es s) = trace s @ es"
  by (simp add: emit_def)

lemma activeJobs_cleanupJob:
  "activeJobs (cleanupJob u s) = AList.delete u (activeJobs s)"
proof (cases "map_of (activeJobs s) u")
  case None
  then have "u \<notin> fst ` set (activeJobs s)" by (simp add: map_of_eq_None_iff)
  with None show ?thesis by (simp add: cleanupJob_def)
next
  case (Some job)
  then show ?thesis by (simp add: cleanupJob_def)
qed

lemma table_ok_delete:
  assumes "table_ok s" and "activeJobs s' = AList.delete u (activeJobs s)"
  shows "table_ok s'"
proof -
  have "length (AList.delete u (activeJobs s)) \<le> length (activeJobs s)"
    by (rule length_delete_le)
  with assms show ?thesis
    by (simp add: table_ok_def distinct_delete list_all_delete_alist)
qed

lemma table_ok_start:
  assumes "table_ok s" and "startGeneration u pat ty jid now s = Inr (r, s')"
  shows "table_ok s'"
proof -
  from assms(2) obtain d where none: "map_of (activeJobs s) u = None"
    and room: "length (activeJobs s) < maxConcurrentJobs"
    and jobs: "activeJobs s' = AList.update u
        \<lparr> jobId = jid, userId = u, pattern = pat, type = ty, startTime = now,
          lastProgress = 0, job_difficulty = d \<rparr> (activeJobs s)"
    by (auto simp: startGeneration_def Let_def split: if_splits option.splits)
  from assms(1) none room jobs show ?thesis
    by (simp add: table_ok_def distinct_update list_all_update_alist length_update_alist)
qed

lemma table_ok_handleProgress: "table_ok s \<Longrightarrow> table_ok (handleProgress u n now s)"
proof (cases "map_of (activeJobs s) u")
  case None
  assume "table_ok s"
  with None show ?thesis by (simp add: handleProgress_def)
next
  case (Some job)
  assume ok: "table_ok s"
  then have "userId job = u"
    using Some by (auto simp: table_ok_def dest: map_of_job_userId)
  with ok Some show ?thesis
    by (simp add: handleProgress_def table_ok_def distinct_update list_all_update_alist
        length_update_alist)
qed

lemma activeJobs_handleWorkerError:
  "activeJobs (handleWorkerError u msg s) = AList.delete u (activeJobs s)"
  by (simp add: handleWorkerError_def activeJobs_cleanupJob)

lemma activeJobs_handleSuccess:
  "activeJobs (snd (handleSuccess u result now s)) = AList.delete u (activeJobs s)"
proof (cases "map_of (activeJobs s) u")
  case None
  then have "u \<notin> fst ` set (activeJobs s)" by (simp add: map_of_eq_None_iff)
  with None show ?thesis by (simp add: handleSuccess_def)
next
  case (Some job)
  then show ?thesis by (simp add: handleSuccess_def Let_def activeJobs_cleanupJob)
qed

lemma activeJobs_cancelGeneration:
  "activeJobs (snd (cancelGeneration u reason s)) = AList.delete u (activeJobs s)"
proof (cases "map_of (activeJobs s) u")
  case None
  then have "u \<notin> fst ` set (activeJobs s)" by (simp add: map_of_eq_None_iff)
  with None show ?thesis by (simp add: cancelGeneration_def)
next
  case (Some job)
  then show ?thesis by (simp add: cancelGeneration_def Let_def activeJobs_cleanupJob)
qed

lemma table_ok_handleWorkerMessage:
  assumes "table_ok s"
  shows "table_ok (handleWorkerMessage u m now s)"
proof (cases "map_of (activeJobs s) u")
  case None
  with assms show ?thesis by (simp add: handleWorkerMessage_def)
next
  case (Some job)
  show ?thesis
  proof (cases m)
    case (Progress n)
    with Some assms show ?thesis
      by (simp add: handleWorkerMessage_def table_ok_handleProgress)
  next
    case (Success result)
    with Some have "handleWorkerMessage u m now s = snd (handleSuccess u result now s)"
      by (simp add: handleWorkerMessage_def)
    with assms show ?thesis
      by (auto intro: table_ok_delete simp: activeJobs_handleSuccess)
  next
    case (ErrorMessage e)
    with Some have "handleWorkerMessage u m now s = handleWorkerError u e s"
      by (simp add: handleWorkerMessage_def)
    with assms show ?thesis
      by (auto intro: table_ok_delete simp: activeJobs_handleWorkerError)
  next
    case OtherMessage
    with Some assms show ?thesis by (simp add: handleWorkerMessage_def)
  qed
qed

lemma table_ok_handle: "table_ok s \<Longrightarrow> table_ok (handle e s)"
proof (cases e)
  case (Start u pat ty jid now)
  assume "table_ok s"
  with Start show ?thesis
    by (auto split: sum.splits dest: table_ok_start)
next
  case (Cancel u reason)
  assume "table_ok s"
  with Cancel show ?thesis
    by (auto intro: table_ok_delete simp: activeJobs_cancelGeneration)
next
  case (Status u now)
  assume "table_ok s"
  with Status show ?thesis
    by (simp add: getStatus_def split: option.splits)
next
  case (WorkerMessage u m now)
  assume "table_ok s"
  with WorkerMessage show ?thesis by (simp add: table_ok_handleWorkerMessage)
next
  case (WorkerError u msg)
  assume "table_ok s"
  with WorkerError show ?thesis
    by (auto intro: table_ok_delete simp: activeJobs_handleWorkerError)
next
  case (WorkerExit u code)
  assume "table_ok s"
  with WorkerExit show ?thesis
    by (auto intro: table_ok_delete simp: onExit_def activeJobs_handleWorkerError)
next
  case (TimeoutFired u)
  assume "table_ok s"
  with TimeoutFired show ?thesis
    by (auto intro: table_ok_delete simp: onTimeout_def activeJobs_cancelGeneration)
qed

lemma table_ok_run: "table_ok s \<Longrightarrow> table_ok (run es s)"
  by (induction es arbitrary: s) (simp_all add: table_ok_handle)

lemma start_while_active:
  "map_of (activeJobs s) r \<noteq> None \<Longrightarrow> startGeneration r pat ty jid now s = Inl AlreadyActive"
  by (simp add: startGeneration_def)

subsection \<open>Evaluating the examples\<close>

lemmas eval_defs = validatePattern_def Let_def maxPatternLength_def validBase58_def
  base58Alphabet_def calculateDifficulty_def baseDifficulty_def estimatedAttemptsOf_def
  estimatedSeconds_def formatTime_def getDifficultyWarning_def base58Chars_def show_int_def
  digit_char_def js_div_def

lemmas svc_defs = startGeneration_def cleanupJob_def emit_def handleProgress_def
  handleSuccess_def handleWorkerError_def handleWorkerMessage_def cancelGeneration_def
  getStatus_def onExit_def onTimeout_def initial_def maxConcurrentJobs_def
  maxGenerationTime_def elapsedText_def

lemma difficulty_abc:
  "calculateDifficulty ''abc'' ''prefix'' =
     \<lparr> difficulty = Num 195112, estimatedAttempts = Num 135213, estimatedTime = ''2m'',
       warningLevel = Medium \<rparr>"
  by (simp add: eval_defs)

lemma validate_abc:
  "validatePattern ''abc'' ''prefix'' =
     \<lparr> valid = True, errors = [], v_difficulty = Some (calculateDifficulty ''abc'' ''prefix'') \<rparr>"
  by (simp add: eval_defs)

lemma validate_xy:
  "validatePattern ''xy'' ''suffix'' =
     \<lparr> valid = True, errors = [], v_difficulty = Some (calculateDifficulty ''xy'' ''suffix'') \<rparr>"
  by (simp add: eval_defs)

lemma validate_Zz9:
  "validatePattern ''Zz9'' ''contains'' =
     \<lparr> valid = True, errors = [], v_difficulty = Some (calculateDifficulty ''Zz9'' ''contains'') \<rparr>"
  by (simp add: eval_defs)

lemma oneJob_eval:
  "oneJob =
     \<lparr> activeJobs = [(1, \<lparr> jobId = ''j1'', userId = 1, pattern = ''abc'', type = ''prefix'',
                            startTime = 0, lastProgress = 0,
                            job_difficulty = calculateDifficulty ''abc'' ''prefix'' \<rparr>)],
       trace = [SpawnWorker ''j1'' ''abc'' ''prefix'', SetTimeout ''j1'' 1800000] \<rparr>"
  by (simp add: oneJob_def svc_defs validate_abc)

lemma threeJobs_eval:
  "threeJobs =
     \<lparr> activeJobs =
         [(1, \<lparr> jobId = ''j1'', userId = 1, pattern = ''abc'', type = ''prefix'',
                startTime = 0, lastProgress = 0,
                job_difficulty = calculateDifficulty ''abc'' ''prefix'' \<rparr>),
          (2, \<lparr> jobId = ''j2'', userId = 2, pattern = ''xy'', type = ''suffix'',
                startTime = 10, lastProgress = 0,
                job_difficulty = calculateDifficulty ''xy'' ''suffix'' \<rparr>),
          (3, \<lparr> jobId = ''j3'', userId = 3, pattern = ''Zz9'', type = ''contains'',
                startTime = 20, lastProgress = 0,
                job_difficulty = calculateDifficulty ''Zz9'' ''contains'' \<rparr>)],
       trace = [SpawnWorker ''j1'' ''abc'' ''prefix'', SetTimeout ''j1'' 1800000,
                SpawnWorker ''j2'' ''xy'' ''suffix'', SetTimeout ''j2'' 1800000,
                SpawnWorker ''j3'' ''Zz9'' ''contains'', SetTimeout ''j3'' 1800000] \<rparr>"
  by (simp add: threeJobs_def svc_defs validate_abc validate_xy validate_Zz9)

subsection \<open>One job per requester\<close>

text \<open>
  Claim C1. Whatever events the service has handled since it was constructed, the table
  holds at most one job for a requester \<open>r\<close> (under the key \<open>r\<close> or with \<open>userId\<close>
  \<open>r\<close>); and when \<open>r\<close> has a job, a start for \<open>r\<close> fails with \<open>AlreadyActive\<close> and
  leaves the service as it was, so no job is created.
\<close>

theorem one_job_per_requester:
  "length (jobsOf r (run es initial)) \<le> 1 \<and>
   (map_of (activeJobs (run es initial)) r \<noteq> None \<longrightarrow>
      startGeneration r pat ty jid now (run es initial) = Inl AlreadyActive \<and>
      handle (Start r pat ty jid now) (run es initial) = run es initial)"
proof -
  have "table_ok (run es initial)"
    by (rule table_ok_run) (rule table_ok_initial)
  then have "length (jobsOf r (run es initial)) \<le> 1"
    by (rule jobsOf_le_one)
  then show ?thesis
    by (simp add: start_while_active)
qed

text \<open>
  Claim C1, at the service with the one job of requester 1: a second start by requester 1
  is refused and changes nothing.
\<close>

theorem one_job_per_requester_witness:
  "map_of (activeJobs (run [Start 1 ''abc'' ''prefix'' ''j1'' 0] initial)) 1 \<noteq> None \<and>
   length (jobsOf 1 (run [Start 1 ''abc'' ''prefix'' ''j1'' 0] initial)) \<le> 1 \<and>
   startGeneration 1 ''xyz'' ''suffix'' ''j2'' 7 (run [Start 1 ''abc'' ''prefix'' ''j1'' 0] initial)
     = Inl AlreadyActive \<and>
   handle (Start 1 ''xyz'' ''suffix'' ''j2'' 7) (run [Start 1 ''abc'' ''prefix'' ''j1'' 0] initial)
     = run [Start 1 ''abc'' ''prefix'' ''j1'' 0] initial"
proof -
  have active: "map_of (activeJobs (run [Start 1 ''abc'' ''prefix'' ''j1'' 0] initial)) 1 \<noteq> None"
    using oneJob_eval by (simp add: oneJob_def)
  with one_job_per_requester [of 1 "[Start 1 ''abc'' ''prefix'' ''j1'' 0]" "''xyz''" "''suffix''" "''j2''" 7]
  show ?thesis by blast
qed

subsection \<open>Difficulty and validation\<close>

lemma contains_mono_step: "(58::real) ^ n / real n < 58 ^ Suc n / real (Suc n)"
proof (cases n)
  case 0
  then show ?thesis by simp
next
  case (Suc m)
  have "0 < (58::real) ^ m * 3248 + real m * (58 ^ m * 3306)"
    by (rule add_pos_nonneg) simp_all
  with Suc show ?thesis by (simp add: field_simps)
qed

lemma contains_mono: "m < n \<Longrightarrow> (58::real) ^ m / real m < 58 ^ n / real n"
  by (rule lift_Suc_mono_less [of "\<lambda>n. (58::real) ^ n / real n"]) (rule contains_mono_step)

lemma warning_of_large:
  assumes "2829124 \<le> d"
  shows "getDifficultyWarning (js_over (js_round (js_times (Num d) (693 / 1000))) 1000) = Extreme"
proof -
  from assms have "(1800000::real) \<le> d * (693 / 1000) + 1 / 2" by simp
  then have "(1800000::int) \<le> \<lfloor>d * (693 / 1000) + 1 / 2\<rfloor>"
    by (simp add: le_floor_iff)
  then have "(1800000::real) \<le> of_int \<lfloor>d * (693 / 1000) + 1 / 2\<rfloor>"
    by linarith
  then show ?thesis
    by (simp add: getDifficultyWarning_def)
qed

lemma warning_of_small:
  assumes "d \<le> 195112"
  shows "getDifficultyWarning (js_over (js_round (js_times (Num d) (693 / 1000))) 1000) \<noteq> Extreme"
proof -
  from assms have "d * (693 / 1000) + 1 / 2 < 1800000" by simp
  then have "\<lfloor>d * (693 / 1000) + 1 / 2\<rfloor> < (1800000::int)"
    by (simp add: floor_less_iff)
  then have "of_int \<lfloor>d * (693 / 1000) + 1 / 2\<rfloor> < (1800000::real)"
    by linarith
  then show ?thesis
    by (simp add: getDifficultyWarning_def)
qed

lemma base_of_long:
  assumes "4 \<le> length pat"
  shows "\<exists>d. baseDifficulty pat ty = Num d \<and> 2829124 \<le> d"
proof (cases "ty = ''contains''")
  case True
  have "(58::real) ^ 4 / real 4 \<le> 58 ^ length pat / real (length pat)"
  proof (cases "length pat = 4")
    case True
    then show ?thesis by simp
  next
    case False
    with assms have "4 < length pat" by simp
    from contains_mono [OF this] show ?thesis by simp
  qed
  moreover from assms have "pat \<noteq> []" by auto
  ultimately show ?thesis
    using True by (simp add: baseDifficulty_def js_div_def base58Chars_def)
next
  case False
  from assms have "(58::real) ^ 4 \<le> 58 ^ length pat"
    by (intro power_increasing) simp_all
  with False show ?thesis
    by (auto simp: baseDifficulty_def base58Chars_def)
qed

lemma base_of_short:
  assumes "pat \<noteq> []" and "length pat \<le> 3"
  shows "\<exists>d. baseDifficulty pat ty = Num d \<and> d \<le> 195112"
proof -
  from assms(2) have pow: "(58::real) ^ length pat \<le> 58 ^ 3"
    by (intro power_increasing) simp_all
  from assms(1) have "1 \<le> real (length pat)" by (cases pat) simp_all
  then have "(58::real) ^ length pat / real (length pat) \<le> 58 ^ length pat / 1"
    using assms(1) by (intro divide_left_mono) simp_all
  with pow have "(58::real) ^ length pat / real (length pat) \<le> 195112" by simp
  with pow assms(1) show ?thesis
    by (auto simp: baseDifficulty_def js_div_def base58Chars_def)
qed

lemma extreme_iff_long:
  assumes "pat \<noteq> []"
  shows "warningLevel (calculateDifficulty pat ty) = Extreme \<longleftrightarrow> 4 \<le> length pat"
proof (cases "4 \<le> length pat")
  case True
  from base_of_long [OF True, of ty] obtain d
    where "baseDifficulty pat ty = Num d" and "2829124 \<le> d" by blast
  with True warning_of_large [of d] show ?thesis
    by (simp add: calculateDifficulty_def estimatedSeconds_def estimatedAttemptsOf_def)
next
  case False
  then have "length pat \<le> 3" by simp
  from base_of_short [OF assms this, of ty] obtain d
    where "baseDifficulty pat ty = Num d" and "d \<le> 195112" by blast
  with False warning_of_small [of d] show ?thesis
    by (simp add: calculateDifficulty_def estimatedSeconds_def estimatedAttemptsOf_def)
qed

lemma valid_iff:
  "valid (validatePattern pat ty) \<longleftrightarrow>
     pat \<noteq> [] \<and> length pat \<le> maxPatternLength \<and> validBase58 pat \<and>
     warningLevel (calculateDifficulty pat ty) \<noteq> Extreme"
  by (simp add: validatePattern_def Let_def)

lemma valid_iff_short:
  "valid (validatePattern pat ty) \<longleftrightarrow> length pat \<le> 3 \<and> validBase58 pat"
proof (cases "pat = []")
  case True
  then show ?thesis by (simp add: valid_iff validBase58_def)
next
  case False
  then show ?thesis
    by (auto simp: valid_iff extreme_iff_long maxPatternLength_def)
qed

lemma baseDifficulty_mono:
  assumes "p \<noteq> []" and "length p < length q"
  shows "js_lt (baseDifficulty p ty) (baseDifficulty q ty)"
proof (cases "ty = ''contains''")
  case True
  from assms have "length p \<noteq> 0" and "length q \<noteq> 0" by auto
  with True contains_mono [OF assms(2)] show ?thesis
    by (simp add: baseDifficulty_def js_div_def base58Chars_def)
next
  case False
  with assms(2) show ?thesis
    by (simp add: baseDifficulty_def base58Chars_def)
qed

lemma contains_le_prefix:
  assumes "p \<noteq> []"
  shows "js_le (baseDifficulty p ''contains'') (baseDifficulty p ''prefix'')"
    and "js_le (baseDifficulty p ''contains'') (baseDifficulty p ''suffix'')"
proof -
  from assms have "1 \<le> real (length p)" by (cases p) simp_all
  then have "(58::real) ^ length p / real (length p) \<le> 58 ^ length p / 1"
    using assms by (intro divide_left_mono) simp_all
  then have "(58::real) ^ length p / real (length p) \<le> 58 ^ length p"
    by simp
  with assms show "js_le (baseDifficulty p ''contains'') (baseDifficulty p ''prefix'')"
    and "js_le (baseDifficulty p ''contains'') (baseDifficulty p ''suffix'')"
    by (simp_all add: baseDifficulty_def js_div_def base58Chars_def)
qed

lemma validBase58_iff:
  "validBase58 pat \<longleftrightarrow> pat \<noteq> [] \<and> \<not> (\<exists>c. c \<in> set pat \<and> c \<notin> set base58Alphabet)"
  by (auto simp: validBase58_def list_all_iff)

lemma errors_nonempty: "\<not> valid (validatePattern pat ty) \<Longrightarrow> errors (validatePattern pat ty) \<noteq> []"
  by (simp add: validatePattern_def Let_def split: if_splits)

lemma start_invalid:
  "map_of (activeJobs s) u = None \<Longrightarrow> length (activeJobs s) < maxConcurrentJobs \<Longrightarrow>
   \<not> valid (validatePattern pat ty) \<Longrightarrow>
   startGeneration u pat ty jid now s = Inl (InvalidPattern (errors (validatePattern pat ty)))"
  by (simp add: startGeneration_def Let_def)

lemma alphabet_58:
  "length base58Alphabet = 58 \<and> distinct base58Alphabet \<and>
   base58Alphabet = filter (\<lambda>c. c \<notin> set ''0OIl'')
     ''0123456789ABCDEFGHIJKLMNOPQRSTUVWXYZabcdefghijklmnopqrstuvwxyz''"
  by (simp add: base58Alphabet_def)

text \<open>
  Claim C6. A pattern that is empty, longer than 6 characters, or has a character outside
  the base58 alphabet is rejected by \<open>validatePattern\<close> for every match type, with a
  non-empty error list, and a start that passes admission fails with \<open>InvalidPattern\<close>
  carrying that list. Conversely a rejected pattern is empty, too long, has a character
  outside the alphabet, or is otherwise rejected: the one other cause is an estimate of
  level \<open>Extreme\<close>. The alphabet has 58 distinct symbols: the digits and letters without
  \<open>0\<close>, \<open>O\<close>, \<open>I\<close> and \<open>l\<close>.
\<close>

theorem validate_rejects_malformed:
  "(pat = [] \<or> length pat > 6 \<or> (\<exists>c. c \<in> set pat \<and> c \<notin> set base58Alphabet) \<longrightarrow>
      \<not> valid (validatePattern pat ty) \<and> errors (validatePattern pat ty) \<noteq> [] \<and>
      (map_of (activeJobs s) u = None \<and> length (activeJobs s) < maxConcurrentJobs \<longrightarrow>
         startGeneration u pat ty jid now s
           = Inl (InvalidPattern (errors (validatePattern pat ty))))) \<and>
   (\<not> valid (validatePattern pat ty) \<longrightarrow>
      pat = [] \<or> length pat > 6 \<or> (\<exists>c. c \<in> set pat \<and> c \<notin> set base58Alphabet) \<or>
      warningLevel (calculateDifficulty pat ty) = Extreme) \<and>
   length base58Alphabet = 58 \<and> distinct base58Alphabet \<and>
   base58Alphabet = filter (\<lambda>c. c \<notin> set ''0OIl'')
     ''0123456789ABCDEFGHIJKLMNOPQRSTUVWXYZabcdefghijklmnopqrstuvwxyz''"
proof -
  have rejects: "\<not> valid (validatePattern pat ty)"
    if "pat = [] \<or> length pat > 6 \<or> (\<exists>c. c \<in> set pat \<and> c \<notin> set base58Alphabet)"
    using that by (auto simp: valid_iff validBase58_iff maxPatternLength_def)
  have causes: "pat = [] \<or> length pat > 6 \<or> (\<exists>c. c \<in> set pat \<and> c \<notin> set base58Alphabet) \<or>
      warningLevel (calculateDifficulty pat ty) = Extreme"
    if "\<not> valid (validatePattern pat ty)"
    using that by (auto simp: valid_iff validBase58_iff maxPatternLength_def)
  from rejects causes show ?thesis
    using alphabet_58 by (auto simp: errors_nonempty start_invalid)
qed

text \<open>Claim C6, at the pattern \<open>AB0\<close>, whose last character is outside the alphabet.\<close>

theorem validate_rejects_malformed_witness:
  "CHR ''0'' \<in> set ''AB0'' \<and> CHR ''0'' \<notin> set base58Alphabet \<and>
   \<not> valid (validatePattern ''AB0'' ''prefix'') \<and>
   errors (validatePattern ''AB0'' ''prefix'') = [InvalidCharacters] \<and>
   map_of (activeJobs initial) 1 = None \<and> length (activeJobs initial) < maxConcurrentJobs \<and>
   startGeneration 1 ''AB0'' ''prefix'' ''j1'' 0 initial = Inl (InvalidPattern [InvalidCharacters])"
proof -
  have bad: "CHR ''0'' \<in> set ''AB0'' \<and> CHR ''0'' \<notin> set base58Alphabet"
    by (simp add: base58Alphabet_def)
  have errs: "errors (validatePattern ''AB0'' ''prefix'') = [InvalidCharacters]"
    by (simp add: eval_defs)
  have room: "map_of (activeJobs initial) 1 = None \<and> length (activeJobs initial) < maxConcurrentJobs"
    by (simp add: initial_def maxConcurrentJobs_def)
  from bad have "''AB0'' = [] \<or> length ''AB0'' > 6 \<or>
      (\<exists>c. c \<in> set ''AB0'' \<and> c \<notin> set base58Alphabet)" by blast
  with validate_rejects_malformed [of "''AB0''" "''prefix''" initial 1 "''j1''" 0] room
  have "\<not> valid (validatePattern ''AB0'' ''prefix'') \<and>
      startGeneration 1 ''AB0'' ''prefix'' ''j1'' 0 initial
        = Inl (InvalidPattern (errors (validatePattern ''AB0'' ''prefix'')))"
    by blast
  with bad errs room show ?thesis by simp
qed

text \<open>
  Claim C2 as stated has an estimate of level \<open>Extreme\<close> pass validation, as a warning
  only. The service pushes its extreme-difficulty text on the same \<open>errors\<close> list whose
  emptiness is \<open>valid\<close>: the pattern \<open>ABCD\<close>, of valid length and alphabet, is
  estimated at two hours, is not valid, and a start with it fails with \<open>InvalidPattern\<close>.
\<close>

theorem extreme_estimate_counterexample:
  "wellFormed ''ABCD'' \<and>
   validatePattern ''ABCD'' ''prefix'' =
     \<lparr> valid = False, errors = [ExtremelyDifficult ''2h''],
       v_difficulty = Some \<lparr> difficulty = Num 11316496, estimatedAttempts = Num 7842332,
                             estimatedTime = ''2h'', warningLevel = Extreme \<rparr> \<rparr> \<and>
   startGeneration 1 ''ABCD'' ''prefix'' ''j1'' 0 initial
     = Inl (InvalidPattern [ExtremelyDifficult ''2h''])"
  by (simp add: wellFormed_def eval_defs startGeneration_def initial_def maxConcurrentJobs_def)

text \<open>
  Claim C2, amended. For every pattern of valid length and alphabet whose estimate has
  level \<open>Extreme\<close>, validation fails: the result is not valid, its only error is the
  extreme-difficulty text with the estimated time, and it still carries the difficulty;
  a start that passes admission fails with \<open>InvalidPattern\<close> carrying that text.
\<close>

theorem extreme_estimate_rejected:
  "wellFormed pat \<and> warningLevel (calculateDifficulty pat ty) = Extreme \<longrightarrow>
     validatePattern pat ty =
       \<lparr> valid = False,
         errors = [ExtremelyDifficult (estimatedTime (calculateDifficulty pat ty))],
         v_difficulty = Some (calculateDifficulty pat ty) \<rparr> \<and>
     (map_of (activeJobs s) u = None \<and> length (activeJobs s) < maxConcurrentJobs \<longrightarrow>
        startGeneration u pat ty jid now s =
          Inl (InvalidPattern [ExtremelyDifficult (estimatedTime (calculateDifficulty pat ty))]))"
proof -
  have "validatePattern pat ty =
       \<lparr> valid = False,
         errors = [ExtremelyDifficult (estimatedTime (calculateDifficulty pat ty))],
         v_difficulty = Some (calculateDifficulty pat ty) \<rparr>"
    if "wellFormed pat" and "warningLevel (calculateDifficulty pat ty) = Extreme"
    using that by (auto simp: wellFormed_def validBase58_def validatePattern_def Let_def)
  then show ?thesis
    by (simp add: startGeneration_def Let_def)
qed

text \<open>Claim C2, amended, at the pattern \<open>ABCD\<close> as a prefix.\<close>

theorem extreme_estimate_rejected_witness:
  "wellFormed ''ABCD'' \<and> warningLevel (calculateDifficulty ''ABCD'' ''prefix'') = Extreme \<and>
   estimatedTime (calculateDifficulty ''ABCD'' ''prefix'') = ''2h'' \<and>
   validatePattern ''ABCD'' ''prefix'' =
     \<lparr> valid = False, errors = [ExtremelyDifficult ''2h''],
       v_difficulty = Some (calculateDifficulty ''ABCD'' ''prefix'') \<rparr> \<and>
   map_of (activeJobs initial) 1 = None \<and> length (activeJobs initial) < maxConcurrentJobs \<and>
   startGeneration 1 ''ABCD'' ''prefix'' ''j1'' 0 initial
     = Inl (InvalidPattern [ExtremelyDifficult ''2h''])"
proof -
  have wf: "wellFormed ''ABCD''"
    by (simp add: wellFormed_def eval_defs)
  have ext: "warningLevel (calculateDifficulty ''ABCD'' ''prefix'') = Extreme"
    by (simp add: eval_defs)
  have time: "estimatedTime (calculateDifficulty ''ABCD'' ''prefix'') = ''2h''"
    by (simp add: eval_defs)
  have room: "map_of (activeJobs initial) 1 = None \<and> length (activeJobs initial) < maxConcurrentJobs"
    by (simp add: initial_def maxConcurrentJobs_def)
  from extreme_estimate_rejected [of "''ABCD''" "''prefix''" initial 1 "''j1''" 0] wf ext room
  have "validatePattern ''ABCD'' ''prefix'' =
       \<lparr> valid = False,
         errors = [ExtremelyDifficult (estimatedTime (calculateDifficulty ''ABCD'' ''prefix''))],
         v_difficulty = Some (calculateDifficulty ''ABCD'' ''prefix'') \<rparr> \<and>
     startGeneration 1 ''ABCD'' ''prefix'' ''j1'' 0 initial =
       Inl (InvalidPattern [ExtremelyDifficult (estimatedTime (calculateDifficulty ''ABCD'' ''prefix''))])"
    by blast
  with wf ext time room show ?thesis by simp
qed

text \<open>
  Claim C7 as stated gives 135267 estimated attempts and about 135.27 seconds for
  \<open>ABC\<close> as a prefix. The service multiplies by the constant 0.693, not by \<open>ln 2\<close>:
  the attempts are not 135267, and the seconds are below 135.22.
\<close>

theorem difficulty_ABC_counterexample:
  "estimatedAttempts (calculateDifficulty ''ABC'' ''prefix'') \<noteq> Num 135267 \<and>
   js_less (estimatedSeconds ''ABC'' ''prefix'') (13522 / 100)"
  by (simp add: eval_defs)

text \<open>
  Claim C7, amended. For \<open>ABC\<close> as a prefix the base difficulty is \<open>58^3 = 195112\<close>,
  the estimated attempts are \<open>round(195112 * 0.693) = 135213\<close>, the estimated seconds
  are 135.213, the formatted time is \<open>2m\<close> and the warning level is \<open>Medium\<close>.
\<close>

theorem difficulty_ABC:
  "calculateDifficulty ''ABC'' ''prefix'' =
     \<lparr> difficulty = Num (58 ^ 3), estimatedAttempts = Num 135213, estimatedTime = ''2m'',
       warningLevel = Medium \<rparr> \<and>
   (58::real) ^ 3 = 195112 \<and>
   js_round (js_times (Num 195112) (693 / 1000)) = Num 135213 \<and>
   estimatedSeconds ''ABC'' ''prefix'' = Num (135213 / 1000) \<and>
   formatTime (Num (135213 / 1000)) = ''2m'' \<and>
   getDifficultyWarning (Num (135213 / 1000)) = Medium"
  by (simp add: eval_defs)

text \<open>
  The validator estimates exactly the non-empty patterns: on an empty pattern it returns
  before its call of \<open>calculateDifficulty\<close>, so the patterns that have a difficulty are
  the non-empty ones.
\<close>

lemma validate_estimates_nonempty:
  "v_difficulty (validatePattern pat ty)
     = (if pat = [] then None else Some (calculateDifficulty pat ty))"
  by (simp add: validatePattern_def Let_def)

text \<open>
  Claim C8. For a fixed match type the base difficulty grows strictly with the length of
  the pattern, over the patterns of valid length and alphabet; and for every pattern
  (every pattern that has a difficulty is non-empty) the \<open>contains\<close> difficulty is at
  most the \<open>prefix\<close> and the \<open>suffix\<close> difficulty.
\<close>

theorem difficulty_monotone:
  "(wellFormed p \<and> wellFormed q \<and> length p < length q \<longrightarrow>
      js_lt (difficulty (calculateDifficulty p ty)) (difficulty (calculateDifficulty q ty))) \<and>
   (p \<noteq> [] \<longrightarrow>
      js_le (difficulty (calculateDifficulty p ''contains''))
            (difficulty (calculateDifficulty p ''prefix'')) \<and>
      js_le (difficulty (calculateDifficulty p ''contains''))
            (difficulty (calculateDifficulty p ''suffix'')))"
proof -
  have "js_lt (baseDifficulty p ty) (baseDifficulty q ty)"
    if "wellFormed p" and "length p < length q"
    using that by (intro baseDifficulty_mono) (simp_all add: wellFormed_def validBase58_def)
  then show ?thesis
    by (simp add: calculateDifficulty_def contains_le_prefix)
qed

text \<open>Claim C8, at the patterns \<open>ab\<close> and \<open>abc\<close>.\<close>

theorem difficulty_monotone_witness:
  "wellFormed ''ab'' \<and> wellFormed ''abc'' \<and> length ''ab'' < length ''abc'' \<and>
   js_lt (difficulty (calculateDifficulty ''ab'' ''contains''))
         (difficulty (calculateDifficulty ''abc'' ''contains'')) \<and>
   js_le (difficulty (calculateDifficulty ''ab'' ''contains''))
         (difficulty (calculateDifficulty ''ab'' ''prefix'')) \<and>
   difficulty (calculateDifficulty ''ab'' ''contains'') = Num 1682 \<and>
   difficulty (calculateDifficulty ''ab'' ''prefix'') = Num 3364"
proof -
  have wf: "wellFormed ''ab'' \<and> wellFormed ''abc'' \<and> length ''ab'' < length ''abc''"
    by (simp add: wellFormed_def eval_defs)
  have vals: "difficulty (calculateDifficulty ''ab'' ''contains'') = Num 1682 \<and>
      difficulty (calculateDifficulty ''ab'' ''prefix'') = Num 3364"
    by (simp add: eval_defs)
  have "''ab'' \<noteq> []" by simp
  with wf vals difficulty_monotone [of "''ab''" "''abc''" "''contains''"]
  show ?thesis by blast
qed

subsection \<open>The concurrency ceiling\<close>

lemma ends_job_removes:
  assumes "ends_job v e" and "map_of (activeJobs s) v \<noteq> None"
  shows "activeJobs (handle e s) = AList.delete v (activeJobs s)"
proof (cases e)
  case (Start u pat ty jid now)
  with assms(1) show ?thesis by simp
next
  case (Cancel u reason)
  with assms(1) show ?thesis by (simp add: activeJobs_cancelGeneration)
next
  case (Status u now)
  with assms(1) show ?thesis by simp
next
  case (WorkerMessage u m now)
  with assms show ?thesis
    by (cases m)
      (auto simp: handleWorkerMessage_def activeJobs_handleSuccess activeJobs_handleWorkerError)
next
  case (WorkerError u msg)
  with assms(1) show ?thesis by (simp add: activeJobs_handleWorkerError)
next
  case (WorkerExit u code)
  with assms(1) show ?thesis by (simp add: onExit_def activeJobs_handleWorkerError)
next
  case (TimeoutFired u)
  with assms(1) show ?thesis by (simp add: onTimeout_def activeJobs_cancelGeneration)
qed

lemma start_at_limit:
  "map_of (activeJobs s) u = None \<Longrightarrow> length (activeJobs s) = 3 \<Longrightarrow>
   startGeneration u pat ty jid now s = Inl ConcurrencyLimitReached"
  by (simp add: startGeneration_def maxConcurrentJobs_def)

lemma start_succeeds:
  assumes "map_of (activeJobs s) u = None" and "length (activeJobs s) < maxConcurrentJobs"
    and "valid (validatePattern pat ty)"
  shows "\<exists>r s'. startGeneration u pat ty jid now s = Inr (r, s') \<and>
           r_jobId r = jid \<and> r_difficulty r = calculateDifficulty pat ty \<and>
           map_of (activeJobs s') u =
             Some \<lparr> jobId = jid, userId = u, pattern = pat, type = ty, startTime = now,
                    lastProgress = 0, job_difficulty = calculateDifficulty pat ty \<rparr> \<and>
           length (activeJobs s') = Suc (length (activeJobs s)) \<and>
           trace s' = trace s @ [SpawnWorker jid pat ty, SetTimeout jid maxGenerationTime]"
proof -
  from assms(3) have "pat \<noteq> []" by (auto simp: validatePattern_def)
  then have "v_difficulty (validatePattern pat ty) = Some (calculateDifficulty pat ty)"
    by (simp add: validatePattern_def Let_def)
  with assms show ?thesis
    by (simp add: startGeneration_def Let_def update_conv' length_update_alist)
qed

text \<open>
  Claim C9. In a state the service can reach with three jobs in the table (they belong
  to three distinct requesters, by the invariant), a start by a requester without a job
  fails with \<open>ConcurrencyLimitReached\<close> and leaves the service as it was. After any
  event that ends the job of one of the three (a cancel, the timeout, a success or error
  message, a worker error, an exit with a non-zero code), the same start with a pattern
  that passes validation succeeds and enters the requester's job in the table.
\<close>

theorem concurrency_limit:
  assumes "s = run es initial"
    and "length (activeJobs s) = 3"
    and "map_of (activeJobs s) u = None"
  shows "startGeneration u pat ty jid now s = Inl ConcurrencyLimitReached \<and>
         handle (Start u pat ty jid now) s = s \<and>
         (map_of (activeJobs s) v \<noteq> None \<and> ends_job v e \<and> valid (validatePattern pat ty) \<longrightarrow>
            (\<exists>r s'. startGeneration u pat ty jid now (handle e s) = Inr (r, s') \<and>
                     map_of (activeJobs s') u \<noteq> None \<and> length (activeJobs s') = 3))"
proof -
  have limit: "startGeneration u pat ty jid now s = Inl ConcurrencyLimitReached"
    using assms(2,3) by (simp add: start_at_limit)
  have after: "\<exists>r s'. startGeneration u pat ty jid now (handle e s) = Inr (r, s') \<and>
      map_of (activeJobs s') u \<noteq> None \<and> length (activeJobs s') = 3"
    if active: "map_of (activeJobs s) v \<noteq> None" and ends: "ends_job v e"
      and ok: "valid (validatePattern pat ty)"
  proof -
    have "table_ok s"
      unfolding assms(1) by (rule table_ok_run) (rule table_ok_initial)
    then have dist: "distinct (map fst (activeJobs s))" by (simp add: table_ok_def)
    from active obtain job where job: "map_of (activeJobs s) v = Some job" by auto
    have jobs: "activeJobs (handle e s) = AList.delete v (activeJobs s)"
      using ends active by (rule ends_job_removes)
    from length_delete_present [OF dist job] assms(2)
    have two: "length (activeJobs (handle e s)) = 2" by (simp add: jobs)
    have free: "map_of (activeJobs (handle e s)) u = None"
      using assms(3) by (simp add: jobs delete_conv')
    from two have "length (activeJobs (handle e s)) < maxConcurrentJobs"
      by (simp add: maxConcurrentJobs_def)
    from start_succeeds [OF free this ok, of jid now] two show ?thesis by auto
  qed
  from limit after show ?thesis by simp
qed

text \<open>
  Claim C9, at the service with jobs for requesters 1, 2 and 3: requester 4 is refused,
  and admitted once requester 2 has cancelled.
\<close>

theorem concurrency_limit_witness:
  "threeJobs = run [Start 1 ''abc'' ''prefix'' ''j1'' 0, Start 2 ''xy'' ''suffix'' ''j2'' 10,
                    Start 3 ''Zz9'' ''contains'' ''j3'' 20] initial \<and>
   length (activeJobs threeJobs) = 3 \<and> map_of (activeJobs threeJobs) 4 = None \<and>
   map_of (activeJobs threeJobs) 2 \<noteq> None \<and> ends_job 2 (Cancel 2 None) \<and>
   valid (validatePattern ''abc'' ''prefix'') \<and>
   startGeneration 4 ''abc'' ''prefix'' ''j4'' 30 threeJobs = Inl ConcurrencyLimitReached \<and>
   (\<exists>r s'. startGeneration 4 ''abc'' ''prefix'' ''j4'' 30 (handle (Cancel 2 None) threeJobs)
              = Inr (r, s') \<and>
            map_of (activeJobs s') 4 \<noteq> None \<and> length (activeJobs s') = 3)"
proof -
  have reach: "threeJobs = run [Start 1 ''abc'' ''prefix'' ''j1'' 0,
      Start 2 ''xy'' ''suffix'' ''j2'' 10, Start 3 ''Zz9'' ''contains'' ''j3'' 20] initial"
    by (simp only: threeJobs_def)
  have three: "length (activeJobs threeJobs) = 3" by (simp add: threeJobs_eval)
  have fourth: "map_of (activeJobs threeJobs) 4 = None" by (simp add: threeJobs_eval)
  have second: "map_of (activeJobs threeJobs) 2 \<noteq> None" by (simp add: threeJobs_eval)
  have ends: "ends_job 2 (Cancel 2 None)" by simp
  have ok: "valid (validatePattern ''abc'' ''prefix'')" by (simp add: validate_abc)
  from concurrency_limit [OF reach three fourth, of "''abc''" "''prefix''" "''j4''" 30 2 "Cancel 2 None"]
    second ends ok
  show ?thesis using reach three fourth by blast
qed

subsection \<open>Cancellation and the timeout\<close>

lemma sentTo_append: "sentTo u (xs @ ys) = sentTo u xs @ sentTo u ys"
  by (induction u xs rule: sentTo.induct) simp_all

lemma cancel_active:
  assumes "map_of (activeJobs s) u = Some job"
  shows "cancelGeneration u reason s =
           (True, \<lparr> activeJobs = AList.delete u (activeJobs s),
                    trace = trace s @
                      [Terminate (jobId job),
                       SendMessage u (CancelledText
                         (case reason of None \<Rightarrow> ''Cancelled by user'' | Some x \<Rightarrow> x)),
                       ClearTimeout (jobId job), Terminate (jobId job)] \<rparr>)"
  using assms by (simp add: cancelGeneration_def cleanupJob_def emit_def Let_def)

lemma cancel_idle:
  "map_of (activeJobs s) u = None \<Longrightarrow> cancelGeneration u reason s = (False, s)"
  by (simp add: cancelGeneration_def)

text \<open>
  Claim C5 as stated has the timeout end the job in a state \<open>TimedOut\<close> that a caller can
  tell from \<open>Cancelled\<close>. A job of the service has no state field; the timer's callback
  is \<open>cancelGeneration\<close> itself. On the job of requester 1 the timeout sends the
  "Generation Cancelled" text, as a cancel by the user does, and leaves the service
  exactly as a cancel with the timeout's reason leaves it.
\<close>

theorem timeout_announces_cancelled_counterexample:
  "map announces (sentTo 1 (trace (run [Start 1 ''abc'' ''prefix'' ''j1'' 0, TimeoutFired 1] initial)))
     = [Some Cancelled] \<and>
   map announces (sentTo 1 (trace (run [Start 1 ''abc'' ''prefix'' ''j1'' 0, Cancel 1 None] initial)))
     = [Some Cancelled] \<and>
   run [Start 1 ''abc'' ''prefix'' ''j1'' 0, TimeoutFired 1] initial
     = run [Start 1 ''abc'' ''prefix'' ''j1'' 0,
            Cancel 1 (Some ''Generation timed out after 30 minutes'')] initial"
  by (simp add: svc_defs validate_abc)

text \<open>
  Claim C5, amended. For a requester with an active job the timeout behaves exactly as
  \<open>cancelGeneration\<close> with the reason "Generation timed out after 30 minutes": the
  worker is terminated, one "Generation Cancelled" text with that reason is sent, the
  timer is cleared and the job leaves the table. The outcome differs from that of a
  cancel by the user in the reason text alone; both announce \<open>Cancelled\<close>.
\<close>

theorem timeout_is_cancel:
  assumes "map_of (activeJobs s) u = Some job"
  shows "handle (TimeoutFired u) s
           = \<lparr> activeJobs = AList.delete u (activeJobs s),
               trace = trace s @
                 [Terminate (jobId job),
                  SendMessage u (CancelledText ''Generation timed out after 30 minutes''),
                  ClearTimeout (jobId job), Terminate (jobId job)] \<rparr> \<and>
         handle (Cancel u (Some reason)) s
           = \<lparr> activeJobs = AList.delete u (activeJobs s),
               trace = trace s @
                 [Terminate (jobId job), SendMessage u (CancelledText reason),
                  ClearTimeout (jobId job), Terminate (jobId job)] \<rparr> \<and>
         handle (TimeoutFired u) s
           = handle (Cancel u (Some ''Generation timed out after 30 minutes'')) s \<and>
         map announces (sentTo u (trace (handle (TimeoutFired u) s)))
           = map announces (sentTo u (trace s)) @ [Some Cancelled] \<and>
         map announces (sentTo u (trace (handle (Cancel u (Some reason)) s)))
           = map announces (sentTo u (trace s)) @ [Some Cancelled]"
  using assms by (simp add: onTimeout_def cancel_active sentTo_append)

text \<open>Claim C5, amended, at the service with the one job of requester 1.\<close>

theorem timeout_is_cancel_witness:
  "map_of (activeJobs oneJob) 1
     = Some \<lparr> jobId = ''j1'', userId = 1, pattern = ''abc'', type = ''prefix'', startTime = 0,
              lastProgress = 0, job_difficulty = calculateDifficulty ''abc'' ''prefix'' \<rparr> \<and>
   handle (TimeoutFired 1) oneJob
     = \<lparr> activeJobs = [],
         trace = [SpawnWorker ''j1'' ''abc'' ''prefix'', SetTimeout ''j1'' 1800000,
                  Terminate ''j1'',
                  SendMessage 1 (CancelledText ''Generation timed out after 30 minutes''),
                  ClearTimeout ''j1'', Terminate ''j1''] \<rparr> \<and>
   handle (Cancel 1 (Some ''stop'')) oneJob
     = \<lparr> activeJobs = [],
         trace = [SpawnWorker ''j1'' ''abc'' ''prefix'', SetTimeout ''j1'' 1800000,
                  Terminate ''j1'', SendMessage 1 (CancelledText ''stop''),
                  ClearTimeout ''j1'', Terminate ''j1''] \<rparr>"
proof -
  have job: "map_of (activeJobs oneJob) 1
     = Some \<lparr> jobId = ''j1'', userId = 1, pattern = ''abc'', type = ''prefix'', startTime = 0,
              lastProgress = 0, job_difficulty = calculateDifficulty ''abc'' ''prefix'' \<rparr>"
    by (simp add: oneJob_eval)
  from timeout_is_cancel [OF job, of "''stop''"] job show ?thesis
    by (simp add: oneJob_eval)
qed

subsection \<open>Status\<close>

lemma progress_keeps_job:
  assumes "map_of (activeJobs s) u = Some job"
  shows "\<exists>lp. map_of (activeJobs (handleWorkerMessage u (Progress n) t s)) u
           = Some (job\<lparr> lastProgress := lp \<rparr>)"
proof (cases "n - lastProgress job \<ge> 10000")
  case True
  with assms have "map_of (activeJobs (handleWorkerMessage u (Progress n) t s)) u
      = Some (job\<lparr> lastProgress := n \<rparr>)"
    by (simp add: handleWorkerMessage_def handleProgress_def update_conv')
  then show ?thesis by blast
next
  case False
  with assms have "map_of (activeJobs (handleWorkerMessage u (Progress n) t s)) u
      = Some (job\<lparr> lastProgress := lastProgress job \<rparr>)"
    by (simp add: handleWorkerMessage_def handleProgress_def)
  then show ?thesis by blast
qed

lemma progress_run_keeps_job:
  "map_of (activeJobs s) u = Some job \<Longrightarrow>
   \<exists>lp. map_of (activeJobs (run (map (\<lambda>(n, t). WorkerMessage u (Progress n) t) ps) s)) u
           = Some (job\<lparr> lastProgress := lp \<rparr>)"
proof (induction ps arbitrary: s job)
  case Nil
  then have "map_of (activeJobs s) u = Some (job\<lparr> lastProgress := lastProgress job \<rparr>)"
    by simp
  then show ?case by (simp only: list.map run.simps) blast
next
  case (Cons p ps)
  obtain n t where p: "p = (n, t)" by (cases p)
  from progress_keeps_job [OF Cons.prems, of n t] obtain lp
    where "map_of (activeJobs (handleWorkerMessage u (Progress n) t s)) u
             = Some (job\<lparr> lastProgress := lp \<rparr>)" by blast
  from Cons.IH [OF this] p show ?case by simp
qed

lemma status_active:
  "map_of (activeJobs s) u = Some job \<Longrightarrow>
   getStatus u now s =
     (Some \<lparr> s_pattern = pattern job, s_type = type job,
             s_elapsed = formatTime (Num (of_int (now - startTime job) / 1000)),
             s_difficulty = job_difficulty job \<rparr>, s)"
  by (simp add: getStatus_def elapsedText_def)

text \<open>
  Claim C10 as stated has the snapshot carry the last attempt count the worker reported.
  \<open>getStatus\<close> returns the pattern, the type, the formatted elapsed time and the
  difficulty only: after a report of 20000 attempts and after a report of 50000 attempts
  the snapshot of requester 1 is the same.
\<close>

theorem status_without_attempts_counterexample:
  "fst (getStatus 1 9000 (run [Start 1 ''abc'' ''prefix'' ''j1'' 0,
                                WorkerMessage 1 (Progress 20000) 4000] initial))
     = fst (getStatus 1 9000 (run [Start 1 ''abc'' ''prefix'' ''j1'' 0,
                                    WorkerMessage 1 (Progress 50000) 4000] initial)) \<and>
   fst (getStatus 1 9000 (run [Start 1 ''abc'' ''prefix'' ''j1'' 0,
                                WorkerMessage 1 (Progress 20000) 4000] initial))
     = Some \<lparr> s_pattern = ''abc'', s_type = ''prefix'', s_elapsed = ''9s'',
              s_difficulty = \<lparr> difficulty = Num 195112, estimatedAttempts = Num 135213,
                               estimatedTime = ''2m'', warningLevel = Medium \<rparr> \<rparr>"
  by (simp add: svc_defs validate_abc difficulty_abc formatTime_def show_int_def digit_char_def)

text \<open>
  Claim C10, amended. For a requester with an active job \<open>getStatus\<close> returns a snapshot
  of the job's pattern, match type, formatted elapsed time and difficulty (no attempt
  count); for a requester without a job it returns nothing; in both cases the service is
  unchanged. After a successful start and any progress messages the snapshot shows the
  pattern and type of the start, the time since the start and the difficulty computed at
  validation.
\<close>

theorem status_snapshot:
  "(map_of (activeJobs s) u = Some job \<longrightarrow>
      getStatus u now s =
        (Some \<lparr> s_pattern = pattern job, s_type = type job,
                s_elapsed = formatTime (Num (of_int (now - startTime job) / 1000)),
                s_difficulty = job_difficulty job \<rparr>, s)) \<and>
   (map_of (activeJobs s) u = None \<longrightarrow> getStatus u now s = (None, s)) \<and>
   (startGeneration u pat ty jid t0 s = Inr (r, s1) \<longrightarrow>
      getStatus u now (run (map (\<lambda>(n, t). WorkerMessage u (Progress n) t) ps) s1) =
        (Some \<lparr> s_pattern = pat, s_type = ty,
                s_elapsed = formatTime (Num (of_int (now - t0) / 1000)),
                s_difficulty = calculateDifficulty pat ty \<rparr>,
         run (map (\<lambda>(n, t). WorkerMessage u (Progress n) t) ps) s1))"
proof -
  have started: "getStatus u now (run (map (\<lambda>(n, t). WorkerMessage u (Progress n) t) ps) s1) =
        (Some \<lparr> s_pattern = pat, s_type = ty,
                s_elapsed = formatTime (Num (of_int (now - t0) / 1000)),
                s_difficulty = calculateDifficulty pat ty \<rparr>,
         run (map (\<lambda>(n, t). WorkerMessage u (Progress n) t) ps) s1)"
    if start: "startGeneration u pat ty jid t0 s = Inr (r, s1)"
  proof -
    from start have none: "map_of (activeJobs s) u = None"
      and room: "length (activeJobs s) < maxConcurrentJobs"
      and ok: "valid (validatePattern pat ty)"
      by (auto simp: startGeneration_def Let_def split: if_splits)
    from start_succeeds [OF none room ok, of jid t0] start
    have "map_of (activeJobs s1) u =
        Some \<lparr> jobId = jid, userId = u, pattern = pat, type = ty, startTime = t0,
               lastProgress = 0, job_difficulty = calculateDifficulty pat ty \<rparr>"
      by auto
    from progress_run_keeps_job [OF this, of ps] obtain lp
      where "map_of (activeJobs (run (map (\<lambda>(n, t). WorkerMessage u (Progress n) t) ps) s1)) u
        = Some \<lparr> jobId = jid, userId = u, pattern = pat, type = ty, startTime = t0,
               lastProgress = lp, job_difficulty = calculateDifficulty pat ty \<rparr>"
      by auto
    from status_active [OF this, of now] show ?thesis by simp
  qed
  then show ?thesis
    by (auto simp: status_active) (simp add: getStatus_def)
qed

text \<open>Claim C10, amended, at the service with the one job of requester 1.\<close>

theorem status_snapshot_witness:
  "map_of (activeJobs oneJob) 1
     = Some \<lparr> jobId = ''j1'', userId = 1, pattern = ''abc'', type = ''prefix'', startTime = 0,
              lastProgress = 0, job_difficulty = calculateDifficulty ''abc'' ''prefix'' \<rparr> \<and>
   getStatus 1 9000 oneJob
     = (Some \<lparr> s_pattern = ''abc'', s_type = ''prefix'', s_elapsed = ''9s'',
               s_difficulty = calculateDifficulty ''abc'' ''prefix'' \<rparr>, oneJob) \<and>
   map_of (activeJobs oneJob) 2 = None \<and>
   getStatus 2 9000 oneJob = (None, oneJob) \<and>
   startGeneration 1 ''abc'' ''prefix'' ''j1'' 0 initial
     = Inr (\<lparr> r_jobId = ''j1'', r_difficulty = calculateDifficulty ''abc'' ''prefix'',
              startMessage = (''abc'', ''prefix'', calculateDifficulty ''abc'' ''prefix'') \<rparr>,
            oneJob) \<and>
   getStatus 1 9000 (run [WorkerMessage 1 (Progress 20000) 4000] oneJob)
     = (Some \<lparr> s_pattern = ''abc'', s_type = ''prefix'', s_elapsed = ''9s'',
               s_difficulty = calculateDifficulty ''abc'' ''prefix'' \<rparr>,
        run [WorkerMessage 1 (Progress 20000) 4000] oneJob)"
proof -
  let ?job = "\<lparr> jobId = ''j1'', userId = 1, pattern = ''abc'', type = ''prefix'', startTime = 0,
              lastProgress = 0, job_difficulty = calculateDifficulty ''abc'' ''prefix'' \<rparr>"
  let ?r = "\<lparr> r_jobId = ''j1'', r_difficulty = calculateDifficulty ''abc'' ''prefix'',
              startMessage = (''abc'', ''prefix'', calculateDifficulty ''abc'' ''prefix'') \<rparr>"
  have job: "map_of (activeJobs oneJob) 1 = Some ?job"
    by (simp add: oneJob_eval)
  have idle: "map_of (activeJobs oneJob) 2 = None"
    by (simp add: oneJob_eval)
  have start: "startGeneration 1 ''abc'' ''prefix'' ''j1'' 0 initial = Inr (?r, oneJob)"
    by (simp add: oneJob_eval svc_defs validate_abc)
  have nine: "formatTime (Num (9000 / 1000)) = ''9s''"
    by (simp add: formatTime_def show_int_def digit_char_def)
  from status_snapshot [of oneJob 1 ?job 9000] job nine
  have a: "getStatus 1 9000 oneJob
     = (Some \<lparr> s_pattern = ''abc'', s_type = ''prefix'', s_elapsed = ''9s'',
               s_difficulty = calculateDifficulty ''abc'' ''prefix'' \<rparr>, oneJob)"
    by simp
  from status_snapshot [of oneJob 2 ?job 9000] idle
  have b: "getStatus 2 9000 oneJob = (None, oneJob)"
    by simp
  from status_snapshot [of initial 1 ?job 9000 "''abc''" "''prefix''" "''j1''" 0 ?r oneJob
      "[(20000, 4000)]"] start nine
  have c: "getStatus 1 9000 (run [WorkerMessage 1 (Progress 20000) 4000] oneJob)
     = (Some \<lparr> s_pattern = ''abc'', s_type = ''prefix'', s_elapsed = ''9s'',
               s_difficulty = calculateDifficulty ''abc'' ''prefix'' \<rparr>,
        run [WorkerMessage 1 (Progress 20000) 4000] oneJob)"
    by simp
  from job idle start a b c show ?thesis by simp
qed

subsection \<open>The result record and the notifications of a finished job\<close>

lemma success_ignores_key_material:
  assumes "address r' = address r" and "attempts r' = attempts r"
  shows "handleWorkerMessage u (Success r') now s = handleWorkerMessage u (Success r) now s"
  using assms by (simp add: handleWorkerMessage_def handleSuccess_def Let_def split: option.splits)

text \<open>
  Claim C3 says that the record of a success reaches the caller and is persisted exactly
  once. \<open>handleSuccess\<close> builds the record for the job of requester 1, but the message
  listener drops it: handling the success message only sends the success text and cleans
  up (no call persists anything), and the service ends the same when the key and the
  mnemonic of the message are blanked.
\<close>

theorem success_record_dropped:
  "fst (handleSuccess 1 exampleResult 5000 oneJob)
     = Some \<lparr> w_address = ''abcXYZ'', w_publicKey = ''abcXYZ'', w_privateKey = [1, 2, 3],
              w_mnemonic = ''word word'', isVanity = True, vanityPattern = ''abc'',
              vanityType = ''prefix'', w_attempts = 4321, generationTime = 5000 \<rparr> \<and>
   handle (WorkerMessage 1 (Success exampleResult) 5000) oneJob
     = \<lparr> activeJobs = [],
         trace = [SpawnWorker ''j1'' ''abc'' ''prefix'', SetTimeout ''j1'' 1800000,
                  SendMessage 1 (SuccessText ''abcXYZ'' ''abc'' ''prefix'' 4321 ''5s''),
                  ClearTimeout ''j1'', Terminate ''j1''] \<rparr> \<and>
   handle (WorkerMessage 1
             (Success (exampleResult\<lparr> privateKey := [], mnemonic := [] \<rparr>)) 5000) oneJob
     = handle (WorkerMessage 1 (Success exampleResult) 5000) oneJob"
  by (simp add: oneJob_eval exampleResult_def handleWorkerMessage_def handleSuccess_def
      cleanupJob_def emit_def elapsedText_def formatTime_def show_int_def digit_char_def)

text \<open>
  Claim C4 says that a job that ends is announced exactly once. Terminating a worker makes
  its \<open>exit\<close> listener run with code 1, and \<open>handleWorkerError\<close> sends its text without
  looking for a job: requester 1 receives a failure text after the cancellation text of
  the same job, likewise after the success text, and twice when the worker's \<open>error\<close>
  event is followed by its exit.
\<close>

theorem finished_job_announced_twice:
  "sentTo 1 (trace (run [Start 1 ''abc'' ''prefix'' ''j1'' 0, Cancel 1 None, WorkerExit 1 1] initial))
     = [CancelledText ''Cancelled by user'', FailedText ''Worker stopped with exit code 1''] \<and>
   sentTo 1 (trace (run [Start 1 ''abc'' ''prefix'' ''j1'' 0,
                         WorkerMessage 1 (Success exampleResult) 5000, WorkerExit 1 1] initial))
     = [SuccessText ''abcXYZ'' ''abc'' ''prefix'' 4321 ''5s'',
        FailedText ''Worker stopped with exit code 1''] \<and>
   sentTo 1 (trace (run [Start 1 ''abc'' ''prefix'' ''j1'' 0, WorkerError 1 ''boom'',
                         WorkerExit 1 1] initial))
     = [FailedText ''boom'', FailedText ''Worker stopped with exit code 1'']"
  by (simp add: svc_defs validate_abc exampleResult_def formatTime_def show_int_def digit_char_def)

end
